theory Spec2Isabelle
  imports Complex_Main
begin

section \<open>The lead form of \<open>Contact.tsx\<close>\<close>

subsection \<open>Data model\<close>

text \<open>
  \<^verbatim>\<open>type FormState = 'idle' | 'loading' | 'success' | 'error'\<close>
\<close>

datatype FormState = Idle | Loading | Success | Error

text \<open>
  \<^verbatim>\<open>interface FormData { name; email; phone; service; message }\<close> is a type annotation only.
  At run time the value is a JavaScript object, and \<open>handleChange\<close> writes it through a
  computed key, so the object is modelled as what it is: a finite map from property name
  to string value.
\<close>

type_synonym FormData = "string \<rightharpoonup> string"

definition EMPTY_FORM :: FormData where
  "EMPTY_FORM =
     [''name'' \<mapsto> '''', ''email'' \<mapsto> '''', ''phone'' \<mapsto> '''', ''service'' \<mapsto> '''',
      ''message'' \<mapsto> '''']"

text \<open>
  The component holds two \<open>useState\<close> cells. The third field counts the timers that
  \<open>handleSubmit\<close> has started with \<open>setTimeout(resolve, 1800)\<close> and that have not fired
  yet; each of them carries the suspended rest of one \<open>handleSubmit\<close> call. The delay
  itself (1800 ms) is not modelled, only the order of events.
\<close>

record Contact =
  formData :: FormData
  formState :: FormState
  timers :: nat

text \<open>\<^verbatim>\<open>useState<FormData>(EMPTY_FORM)\<close>, \<^verbatim>\<open>useState<FormState>('idle')\<close>, no timer started.\<close>

definition initial :: Contact where
  "initial = \<lparr>formData = EMPTY_FORM, formState = Idle, timers = 0\<rparr>"

subsection \<open>The handlers\<close>

text \<open>
  \<^verbatim>\<open>setFormData((prev) => ({ ...prev, [e.target.name]: e.target.value }))\<close>:
  the two arguments are \<open>e.target.name\<close> and \<open>e.target.value\<close>. The spread copies every
  property of \<open>prev\<close>; the computed key then sets (or adds) one property.
\<close>

definition handleChange :: "string \<Rightarrow> string \<Rightarrow> Contact \<Rightarrow> Contact" where
  "handleChange name val s = s\<lparr>formData := (formData s)(name \<mapsto> val)\<rparr>"

text \<open>
  The awaited promise is \<^verbatim>\<open>new Promise((resolve) => setTimeout(resolve, 1800))\<close>.
  An executor receives two functions, \<open>resolve\<close> and \<open>reject\<close>; this one hands \<open>resolve\<close> to
  the timer and never mentions \<open>reject\<close>. \<open>await\<close> continues normally on a fulfilled promise
  and throws into the \<open>catch\<close> block on a rejected one.
\<close>

datatype settle_fn = resolve | reject

datatype settlement = Fulfilled | Rejected

fun settles :: "settle_fn \<Rightarrow> settlement" where
  "settles resolve = Fulfilled"
| "settles reject = Rejected"

definition timer_callback :: settle_fn where
  "timer_callback = resolve"

text \<open>
  \<open>handleSubmit\<close> up to its \<open>await\<close>: \<open>e.preventDefault()\<close>, \<open>setFormState('loading')\<close>, and
  the timer is started. There is no test of the current state in the handler.
\<close>

definition handleSubmit_start :: "Contact \<Rightarrow> Contact" where
  "handleSubmit_start s = s\<lparr>formState := Loading, timers := Suc (timers s)\<rparr>"

text \<open>
  The rest of \<open>handleSubmit\<close>, run when one pending timer fires:
  \<open>setFormState('success')\<close> after the \<open>await\<close>, or \<open>setFormState('error')\<close> in \<open>catch\<close>.
  With no pending timer there is nothing to run.
\<close>

definition handleSubmit_resume :: "Contact \<Rightarrow> Contact" where
  "handleSubmit_resume s =
     (case timers s of
        0 \<Rightarrow> s
      | Suc n \<Rightarrow>
          (case settles timer_callback of
             Fulfilled \<Rightarrow> s\<lparr>formState := Success, timers := n\<rparr>
           | Rejected \<Rightarrow> s\<lparr>formState := Error, timers := n\<rparr>))"

text \<open>\<^verbatim>\<open>setFormData(EMPTY_FORM); setFormState('idle')\<close>. Pending timers are not cancelled.\<close>

definition handleReset :: "Contact \<Rightarrow> Contact" where
  "handleReset s = s\<lparr>formData := EMPTY_FORM, formState := Idle\<rparr>"

subsection \<open>The rendered controls\<close>

text \<open>
  What can happen to the component: a change event of one of the inputs, a submit event
  of the form, the firing of a pending timer, a click on "Enviar outra mensagem".
\<close>

datatype event = Change string string | Submit | TimerFires | Reset

fun handler :: "event \<Rightarrow> Contact \<Rightarrow> Contact" where
  "handler (Change name val) s = handleChange name val s"
| "handler Submit s = handleSubmit_start s"
| "handler TimerFires s = handleSubmit_resume s"
| "handler Reset s = handleReset s"

text \<open>
  The JSX decides which events the page can deliver in a given state:
  \<^item> \<^verbatim>\<open>formState === 'success' ? <SuccessState onReset={handleReset}/> : <motion.form onSubmit={handleSubmit}>\<close>:
    the form is rendered in every state but \<open>success\<close>, the reset button only in
    \<open>success\<close>;
  \<^item> \<^verbatim>\<open><button type="submit" disabled={formState === 'loading'}>\<close>: a disabled submit button
    submits nothing, so no submit event reaches \<open>handleSubmit\<close> while loading;
  \<^item> the inputs carry no \<open>disabled\<close> attribute: they stay editable while loading;
  \<^item> the form sits in \<^verbatim>\<open><AnimatePresence mode="wait">\<close> with \<^verbatim>\<open>exit={{ opacity: 0 }}\<close>: once
    the state is \<open>success\<close> it stays mounted while it fades out, in its last render, the
    one of \<open>loading\<close>. Its submit button is therefore still disabled, but its inputs
    still deliver change events to \<open>handleChange\<close>. How long the fade lasts is not
    modelled, so a change event is admitted in every state;
  \<^item> a timer fires only if one is pending.
  The view is taken as re-rendered from the current state before the next event.
  The rendered inputs are named \<open>name\<close>, \<open>phone\<close>, \<open>email\<close>, \<open>service\<close>, \<open>message\<close>;
  the model admits a change event of any name, as \<open>handleChange\<close> does.
\<close>

fun available :: "Contact \<Rightarrow> event \<Rightarrow> bool" where
  "available s (Change name val) = True"
| "available s Submit = (formState s \<noteq> Success \<and> formState s \<noteq> Loading)"
| "available s TimerFires = (0 < timers s)"
| "available s Reset = (formState s = Success)"

definition dispatch :: "Contact \<Rightarrow> event \<Rightarrow> Contact" where
  "dispatch s e = (if available s e then handler e s else s)"

fun run :: "Contact \<Rightarrow> event list \<Rightarrow> Contact" where
  "run s [] = s"
| "run s (e # es) = run (dispatch s e) es"

text \<open>The same sequence of events delivered to the handlers with no view in between.\<close>

fun run_handlers :: "Contact \<Rightarrow> event list \<Rightarrow> Contact" where
  "run_handlers s [] = s"
| "run_handlers s (e # es) = run_handlers (handler e s) es"

subsection \<open>The specification's transition relation\<close>

text \<open>
  The transitions the specification allows, in its own words: idle to loading by submit,
  loading to success or to error when the submission settles, success or error to idle
  by an explicit reset.
\<close>

definition spec_linear_transition :: "FormState \<Rightarrow> event \<Rightarrow> FormState \<Rightarrow> bool" where
  "spec_linear_transition a e b =
     ((a = Idle \<and> e = Submit \<and> b = Loading)
      \<or> (a = Loading \<and> e = TimerFires \<and> (b = Success \<or> b = Error))
      \<or> ((a = Success \<or> a = Error) \<and> e = Reset \<and> b = Idle))"

text \<open>
  The specification's "last value written per field": the value of the latest call in
  the sequence that names the field, if there is one.
\<close>

fun spec_last_written :: "string \<Rightarrow> (string \<times> string) list \<Rightarrow> string option" where
  "spec_last_written k [] = None"
| "spec_last_written k ((name, val) # ws) =
     (case spec_last_written k ws of
        Some v \<Rightarrow> Some v
      | None \<Rightarrow> if name = k then Some val else None)"

text \<open>A sequence of \<open>updateField(name, value)\<close> calls, in order.\<close>

fun handleChanges :: "(string \<times> string) list \<Rightarrow> Contact \<Rightarrow> Contact" where
  "handleChanges [] s = s"
| "handleChanges ((name, val) # ws) s = handleChanges ws (handleChange name val s)"

text \<open>The same calls as change events of the page.\<close>

definition change_events :: "(string \<times> string) list \<Rightarrow> event list" where
  "change_events ws = map (\<lambda>(name, val). Change name val) ws"

text \<open>The \<open>updateField\<close> calls among a sequence of events, in order.\<close>

fun edits :: "event list \<Rightarrow> (string \<times> string) list" where
  "edits [] = []"
| "edits (Change name val # es) = (name, val) # edits es"
| "edits (Submit # es) = edits es"
| "edits (TimerFires # es) = edits es"
| "edits (Reset # es) = edits es"

text \<open>
  At most one submission is in flight, it is in flight exactly while the state is
  \<open>loading\<close>, and the state is not \<open>error\<close>.
\<close>

definition consistent :: "Contact \<Rightarrow> bool" where
  "consistent s =
     (if formState s = Loading then timers s = 1
      else timers s = 0 \<and> (formState s = Idle \<or> formState s = Success))"

section \<open>The marquee of \<open>Portfolio.tsx\<close>\<close>

text \<open>
  \<^verbatim>\<open>interface PortfolioItem { id; title; category; image; location }\<close>, all strings.
  Strings are the bytes of the UTF-8 source file.
\<close>

record PortfolioItem =
  item_id :: string
  title :: string
  category :: string
  item_image :: string
  location :: string

definition PORTFOLIO_ITEMS :: "PortfolioItem list" where
  "PORTFOLIO_ITEMS =
    [\<lparr>item_id = ''p01'',
      title = ''Skyline de Curitiba'',
      category = ''Fotografia A'' @ [CHR 0xC3, CHR 0xA9] @ ''rea'',
      item_image = ''https://images.unsplash.com/photo-1477959858617-67f85cf4f1df?w=700&h=480&q=85&auto=format&fit=crop'',
      location = ''Curitiba, PR''\<rparr>,
     \<lparr>item_id = ''p02'',
      title = ''Vistoria de Torre Industrial'',
      category = ''Vistoria T'' @ [CHR 0xC3, CHR 0xA9] @ ''cnica'',
      item_image = ''https://images.unsplash.com/photo-1473968512647-3e447244af8f?w=700&h=480&q=85&auto=format&fit=crop'',
      location = ''S'' @ [CHR 0xC3, CHR 0xA3] @ ''o Paulo, SP''\<rparr>,
     \<lparr>item_id = ''p03'',
      title = ''Lan'' @ [CHR 0xC3, CHR 0xA7] @ ''amento Residencial Alto do Igua'' @ [CHR 0xC3, CHR 0xA7] @ ''u'',
      category = ''Lan'' @ [CHR 0xC3, CHR 0xA7] @ ''amento Imobili'' @ [CHR 0xC3, CHR 0xA1] @ ''rio'',
      item_image = ''https://images.unsplash.com/photo-1512917774080-9991b1c3602a?w=700&h=480&q=85&auto=format&fit=crop'',
      location = ''Curitiba, PR''\<rparr>,
     \<lparr>item_id = ''p04'',
      title = ''Festival Gastron'' @ [CHR 0xC3, CHR 0xB4] @ ''mico Curitiba'',
      category = ''Eventos'',
      item_image = ''https://images.unsplash.com/photo-1429962714451-bb934ecdc4ec?w=700&h=480&q=85&auto=format&fit=crop'',
      location = ''Curitiba, PR''\<rparr>,
     \<lparr>item_id = ''p05'',
      title = ''Maratona Internacional de Buenos Aires'',
      category = ''Eventos Esportivos'',
      item_image = ''https://images.unsplash.com/photo-1569336415962-a4bd9f69cd83?w=700&h=480&q=85&auto=format&fit=crop'',
      location = ''Buenos Aires, ARG''\<rparr>,
     \<lparr>item_id = ''p06'',
      title = ''Serra Ga'' @ [CHR 0xC3, CHR 0xBA] @ ''cha Vista do Alto'',
      category = ''Fotografia A'' @ [CHR 0xC3, CHR 0xA9] @ ''rea'',
      item_image = ''https://images.unsplash.com/photo-1506905925346-21bda4d32df4?w=700&h=480&q=85&auto=format&fit=crop'',
      location = ''Bento Gon'' @ [CHR 0xC3, CHR 0xA7] @ ''alves, RS''\<rparr>,
     \<lparr>item_id = ''p07'',
      title = ''Inspe'' @ [CHR 0xC3, CHR 0xA7, CHR 0xC3, CHR 0xA3] @ ''o de Usina Solar'',
      category = ''Vistoria T'' @ [CHR 0xC3, CHR 0xA9] @ ''cnica'',
      item_image = ''https://images.unsplash.com/photo-1486325212027-8081e485255e?w=700&h=480&q=85&auto=format&fit=crop'',
      location = ''Pernambuco, PE''\<rparr>,
     \<lparr>item_id = ''p08'',
      title = ''V'' @ [CHR 0xC3, CHR 0xAD] @ ''deo Institucional Prefeitura de Curitiba'',
      category = ''Institucional'',
      item_image = ''https://images.unsplash.com/photo-1486406869267-3f6a0f7d3a4c?w=700&h=480&q=85&auto=format&fit=crop'',
      location = ''Curitiba, PR''\<rparr>,
     \<lparr>item_id = ''p09'',
      title = ''Campeonato de Motocross'',
      category = ''Eventos Esportivos'',
      item_image = ''https://images.unsplash.com/photo-1568702846914-96b305d2aaeb?w=700&h=480&q=85&auto=format&fit=crop'',
      location = ''Florian'' @ [CHR 0xC3, CHR 0xB3] @ ''polis, SC''\<rparr>,
     \<lparr>item_id = ''p10'',
      title = ''Condom'' @ [CHR 0xC3, CHR 0xAD] @ ''nio Horizontal Vista Verde'',
      category = ''Lan'' @ [CHR 0xC3, CHR 0xA7] @ ''amento Imobili'' @ [CHR 0xC3, CHR 0xA1] @ ''rio'',
      item_image = ''https://images.unsplash.com/photo-1519125323398-675f0ddb6308?w=700&h=480&q=85&auto=format&fit=crop'',
      location = ''Londrina, PR''\<rparr>]"

text \<open>
  A child of the track: its React key and the props \<open>item\<close> and \<open>isClone\<close> of
  \<open>PortfolioCard\<close> (\<open>isClone\<close> defaults to \<open>false\<close>).
\<close>

record element =
  key :: string
  item :: PortfolioItem
  isClone :: bool

text \<open>
  What \<open>PortfolioCard\<close> renders from its props: \<open>aria-hidden={isClone}\<close> on the card, the
  image with \<open>src={item.image}\<close> and an \<open>alt\<close> that is empty for a clone and otherwise the
  title followed by a space, an em dash, a space and \<open>DroneLENS\<close>, then the category
  badge, the title and the location.
\<close>

record card =
  aria_hidden :: bool
  img_src :: string
  img_alt :: string
  badge :: string
  heading :: string
  place :: string

definition PortfolioCard :: "element \<Rightarrow> card" where
  "PortfolioCard props =
     \<lparr>aria_hidden = isClone props,
      img_src = item_image (item props),
      img_alt =
        (if isClone props then ''''
         else title (item props) @ '' '' @ [CHR 0xE2, CHR 0x80, CHR 0x94] @ '' DroneLENS''),
      badge = category (item props),
      heading = title (item props),
      place = location (item props)\<rparr>"

text \<open>
  The children of the track:
  \<^verbatim>\<open>PORTFOLIO_ITEMS.map((item) => <PortfolioCard key={item.id} item={item} />)\<close> and then
  \<^verbatim>\<open>PORTFOLIO_ITEMS.map((item) => <PortfolioCard key={`clone-${item.id}`} item={item} isClone />)\<close>.
\<close>

definition marquee_track :: "element list" where
  "marquee_track =
     map (\<lambda>i. \<lparr>key = item_id i, item = i, isClone = False\<rparr>) PORTFOLIO_ITEMS
     @ map (\<lambda>i. \<lparr>key = ''clone-'' @ item_id i, item = i, isClone = True\<rparr>) PORTFOLIO_ITEMS"

section \<open>The theme toggle\<close>






section \<open>The star rating\<close>

text \<open>
  \<open>rating: number\<close> is an IEEE double: a finite value (every one of them a real number),
  an infinity or NaN. The component only compares it with the indices 0 to 4, and a
  comparison of two doubles is exact; a comparison with NaN is false.
\<close>

datatype number = Finite real | PosInfinity | NegInfinity | NaN

fun index_less :: "nat \<Rightarrow> number \<Rightarrow> bool" where
  "index_less i (Finite r) = (real i < r)"
| "index_less i PosInfinity = True"
| "index_less i NegInfinity = False"
| "index_less i NaN = False"

text \<open>
  The two class names of a star: \<open>'fill-brand-gold text-brand-gold'\<close> and
  \<open>'fill-transparent text-[var(--border)]'\<close>.
\<close>

datatype star = Filled | Unfilled

text \<open>
  \<^verbatim>\<open>Array.from({ length: 5 }).map((_, i) => <Star className={i < rating ? ... : ...} />)\<close>
\<close>

definition StarRating :: "number \<Rightarrow> star list" where
  "StarRating rating = map (\<lambda>i. if index_less i rating then Filled else Unfilled) [0..<5]"

definition filled_count :: "star list \<Rightarrow> nat" where
  "filled_count stars = length (filter (\<lambda>s. s = Filled) stars)"

section \<open>Properties of the lead form\<close>

lemma EMPTY_FORM_dom:
  "dom EMPTY_FORM = {''name'', ''email'', ''phone'', ''service'', ''message''}"
  by (auto simp: EMPTY_FORM_def split: if_splits)

text \<open>
  C5. \<open>reset()\<close> yields state \<open>idle\<close> and the empty record from every prior state,
  whatever the fields held: the five declared fields are the empty string and there is
  no other field.
\<close>

theorem handleReset_empty_idle:
  "formState (handleReset s) = Idle
   \<and> formData (handleReset s) = EMPTY_FORM
   \<and> formData (handleReset s) ''name'' = Some ''''
   \<and> formData (handleReset s) ''email'' = Some ''''
   \<and> formData (handleReset s) ''phone'' = Some ''''
   \<and> formData (handleReset s) ''service'' = Some ''''
   \<and> formData (handleReset s) ''message'' = Some ''''
   \<and> dom (formData (handleReset s)) = {''name'', ''email'', ''phone'', ''service'', ''message''}"
  by (simp add: handleReset_def EMPTY_FORM_dom) (simp add: EMPTY_FORM_def)

subsection \<open>The invariant of the page\<close>

lemma consistent_initial: "consistent initial"
  by (simp add: consistent_def initial_def)

lemma consistent_dispatch:
  assumes "consistent s"
  shows "consistent (dispatch s e)"
proof (cases e)
  case (Change name val)
  with assms show ?thesis
    by (auto simp: dispatch_def handleChange_def consistent_def split: if_splits)
next
  case Submit
  with assms show ?thesis
    by (auto simp: dispatch_def handleSubmit_start_def consistent_def split: if_splits)
next
  case TimerFires
  with assms show ?thesis
    by (auto simp: dispatch_def handleSubmit_resume_def timer_callback_def consistent_def
        split: if_splits nat.splits)
next
  case Reset
  with assms show ?thesis
    by (auto simp: dispatch_def handleReset_def consistent_def split: if_splits)
qed

lemma consistent_run: "consistent s \<Longrightarrow> consistent (run s es)"
  by (induction es arbitrary: s) (simp_all add: consistent_dispatch)

lemma run_append: "run s (es @ es') = run (run s es) es'"
  by (induction es arbitrary: s) simp_all

lemma consistent_reachable: "consistent (run initial es)"
  by (rule consistent_run [OF consistent_initial])

lemma consistent_step:
  assumes "consistent s"
  shows "formState (dispatch s e) = formState s
         \<or> spec_linear_transition (formState s) e (formState (dispatch s e))"
proof (cases e)
  case (Change name val)
  then show ?thesis by (simp add: dispatch_def handleChange_def)
next
  case Submit
  with assms show ?thesis
    by (cases "formState s")
       (simp_all add: dispatch_def handleSubmit_start_def spec_linear_transition_def
          consistent_def)
next
  case TimerFires
  with assms show ?thesis
    by (cases "formState s")
       (simp_all add: dispatch_def handleSubmit_resume_def timer_callback_def
          spec_linear_transition_def consistent_def)
next
  case Reset
  then show ?thesis
    by (cases "formState s")
       (simp_all add: dispatch_def handleReset_def spec_linear_transition_def)
qed

text \<open>
  C1. The state is one of the four values, and along every execution from the initial
  state each event either leaves the state as it is or makes one of the linear
  transitions of the specification: idle to loading by submit, loading to success (or
  error) when the timer fires, success (or error) to idle by reset.
\<close>

theorem formState_transitions_linear:
  "formState (run initial es) \<in> {Idle, Loading, Success, Error}
   \<and> (formState (dispatch (run initial es) e) = formState (run initial es)
      \<or> spec_linear_transition (formState (run initial es)) e
           (formState (dispatch (run initial es) e)))"
proof
  show "formState (run initial es) \<in> {Idle, Loading, Success, Error}"
    by (cases "formState (run initial es)") simp_all
  show "formState (dispatch (run initial es) e) = formState (run initial es)
        \<or> spec_linear_transition (formState (run initial es)) e
             (formState (dispatch (run initial es) e))"
    by (rule consistent_step [OF consistent_reachable])
qed

subsection \<open>Submitting while loading\<close>

lemma dispatch_Submit_twice: "dispatch (dispatch s Submit) Submit = dispatch s Submit"
  by (simp add: dispatch_def handleSubmit_start_def)

text \<open>
  C2. A submit while the state is \<open>loading\<close> changes nothing, neither the state nor the
  pending timers; submitting twice in a row leaves the page in the state a single
  submit leaves it in, and no later sequence of events tells the two apart.
\<close>

theorem submit_while_loading_noop:
  "(formState s = Loading \<longrightarrow> dispatch s Submit = s)
   \<and> dispatch (dispatch s Submit) Submit = dispatch s Submit
   \<and> run s (Submit # Submit # es) = run s (Submit # es)"
  by (simp add: dispatch_Submit_twice) (simp add: dispatch_def)

theorem submit_while_loading_noop_witness:
  "formState (dispatch initial Submit) = Loading
   \<and> timers (dispatch initial Submit) = 1
   \<and> dispatch (dispatch initial Submit) Submit = dispatch initial Submit
   \<and> run initial [Submit, Submit, TimerFires, Reset, TimerFires]
       = run initial [Submit, TimerFires, Reset, TimerFires]"
proof -
  have l: "formState (dispatch initial Submit) = Loading"
    by (simp add: dispatch_def handleSubmit_start_def initial_def)
  have t: "timers (dispatch initial Submit) = 1"
    by (simp add: dispatch_def handleSubmit_start_def initial_def)
  from l t submit_while_loading_noop [of "dispatch initial Submit"]
    submit_while_loading_noop [of initial "[TimerFires, Reset, TimerFires]"]
  show ?thesis by blast
qed

subsection \<open>The error state\<close>

lemma handler_no_error: "formState s \<noteq> Error \<Longrightarrow> formState (handler e s) \<noteq> Error"
  by (cases e)
     (simp_all add: handleChange_def handleSubmit_start_def handleSubmit_resume_def
        handleReset_def timer_callback_def split: nat.splits)

lemma run_handlers_no_error:
  "formState s \<noteq> Error \<Longrightarrow> formState (run_handlers s es) \<noteq> Error"
  by (induction es arbitrary: s) (simp_all add: handler_no_error)

lemma consistent_no_error: "consistent s \<Longrightarrow> formState s \<noteq> Error"
  by (auto simp: consistent_def split: if_splits)

text \<open>
  C3. The timer is given \<open>resolve\<close>, so the awaited promise is fulfilled, and no
  execution from the initial state reaches \<open>error\<close>: neither through the events the page
  can deliver, nor through the handlers called in any order.
\<close>

theorem error_state_unreachable:
  "settles timer_callback = Fulfilled
   \<and> formState (run initial es) \<noteq> Error
   \<and> formState (run_handlers initial es) \<noteq> Error"
proof (intro conjI)
  show "settles timer_callback = Fulfilled"
    by (simp add: timer_callback_def)
  show "formState (run initial es) \<noteq> Error"
    by (rule consistent_no_error [OF consistent_reachable])
  show "formState (run_handlers initial es) \<noteq> Error"
    by (rule run_handlers_no_error) (simp add: initial_def)
qed

subsection \<open>Submission and the fields\<close>

lemma handleChanges_formData:
  "formData (handleChanges ws s) k
   = (case spec_last_written k ws of Some v \<Rightarrow> Some v | None \<Rightarrow> formData s k)"
proof (induction ws arbitrary: s)
  case Nil
  show ?case by simp
next
  case (Cons w ws)
  obtain name val where w: "w = (name, val)" by (cases w)
  show ?case
    by (simp add: w Cons.IH handleChange_def split: option.splits)
qed

lemma run_change_events: "run s (change_events ws) = handleChanges ws s"
proof (induction ws arbitrary: s)
  case Nil
  show ?case by (simp add: change_events_def)
next
  case (Cons w ws)
  obtain name val where w: "w = (name, val)" by (cases w)
  have "run (handleChange name val s) (change_events ws)
        = handleChanges ws (handleChange name val s)"
    by (rule Cons.IH)
  with w show ?case
    by (simp add: change_events_def dispatch_def)
qed

lemma handleChanges_frame:
  "formState (handleChanges ws s) = formState s \<and> timers (handleChanges ws s) = timers s"
  by (induction ws arbitrary: s) (auto simp: handleChange_def)

lemma settled_only_edits:
  assumes "formState s = Success" and "timers s = 0" and "Reset \<notin> set es"
  shows "run s es = handleChanges (edits es) s"
  using assms
proof (induction es arbitrary: s)
  case Nil
  show ?case by simp
next
  case (Cons e es)
  show ?case
  proof (cases e)
    case (Change name val)
    have "run (handleChange name val s) es = handleChanges (edits es) (handleChange name val s)"
      using Cons.prems by (intro Cons.IH) (simp_all add: handleChange_def)
    with Change show ?thesis
      by (simp add: dispatch_def)
  next
    case Submit
    have "run s es = handleChanges (edits es) s"
      using Cons.prems by (intro Cons.IH) simp_all
    with Submit Cons.prems show ?thesis
      by (simp add: dispatch_def)
  next
    case TimerFires
    have "run s es = handleChanges (edits es) s"
      using Cons.prems by (intro Cons.IH) simp_all
    with TimerFires Cons.prems show ?thesis
      by (simp add: dispatch_def)
  next
    case Reset
    with Cons.prems show ?thesis by simp
  qed
qed

lemma submit_edit_settle:
  assumes c: "consistent s" and a: "available s Submit"
  shows "run s (Submit # change_events ws @ [TimerFires])
         = (handleChanges ws s)\<lparr>formState := Success\<rparr>"
proof -
  let ?s1 = "handleSubmit_start s"
  let ?s2 = "handleChanges ws ?s1"
  from c a have t0: "timers s = 0"
    by (auto simp: consistent_def split: if_splits)
  have s1: "dispatch s Submit = ?s1"
    using a by (simp add: dispatch_def)
  have s2: "run ?s1 (change_events ws) = ?s2"
    by (rule run_change_events)
  have "timers ?s2 = 1"
    using t0 by (simp add: handleChanges_frame handleSubmit_start_def)
  then have s3: "dispatch ?s2 TimerFires = ?s2\<lparr>formState := Success, timers := 0\<rparr>"
    by (simp add: dispatch_def handleSubmit_resume_def timer_callback_def)
  have fd: "formData ?s2 = formData (handleChanges ws s)"
    by (rule ext) (simp add: handleChanges_formData handleSubmit_start_def split: option.splits)
  have "?s2\<lparr>formState := Success, timers := 0\<rparr> = (handleChanges ws s)\<lparr>formState := Success\<rparr>"
    using t0 fd by (intro Contact.equality) (simp_all add: handleChanges_frame)
  with s1 s2 s3 show ?thesis
    by (simp add: run_append)
qed

text \<open>
  C4, as the code has it. Take any state the page can reach in which the submit control
  is available. The start of \<open>submit()\<close> modifies no field. When the timer fires the
  state is \<open>success\<close>, and the fields are those held at the submit with the edits made
  during the delay applied in order (the inputs stay editable while loading); with no
  such edit they are exactly the fields held at the submit. From then on, until a
  reset, the state stays \<open>success\<close> and the fields change only by the edits that still
  arrive through the fading form, applied in order: a submit or a timer changes
  nothing, and with no edit the fields stay as they are.
\<close>

theorem submit_keeps_fields:
  assumes "available (run initial es) Submit"
  shows "formData (dispatch (run initial es) Submit) = formData (run initial es)
    \<and> formState (run initial (es @ Submit # change_events ws @ [TimerFires])) = Success
    \<and> formData (run initial (es @ Submit # change_events ws @ [TimerFires]))
        = formData (handleChanges ws (run initial es))
    \<and> formData (run initial (es @ [Submit, TimerFires])) = formData (run initial es)
    \<and> (Reset \<notin> set es' \<longrightarrow>
         run initial (es @ Submit # change_events ws @ [TimerFires] @ es')
         = handleChanges (edits es')
             (run initial (es @ Submit # change_events ws @ [TimerFires]))
         \<and> formState (run initial (es @ Submit # change_events ws @ [TimerFires] @ es'))
           = Success)
    \<and> (Reset \<notin> set es' \<and> edits es' = [] \<longrightarrow>
         run initial (es @ Submit # change_events ws @ [TimerFires] @ es')
         = run initial (es @ Submit # change_events ws @ [TimerFires]))"
proof -
  let ?s = "run initial es"
  let ?r = "run initial (es @ Submit # change_events ws @ [TimerFires])"
  let ?q = "run initial (es @ Submit # change_events ws @ [TimerFires] @ es')"
  have c: "consistent ?s" by (rule consistent_reachable)
  have r: "run ?s (Submit # change_events ws @ [TimerFires])
           = (handleChanges ws ?s)\<lparr>formState := Success\<rparr>" for ws
    by (rule submit_edit_settle [OF c assms])
  have r0: "run ?s [Submit, TimerFires] = ?s\<lparr>formState := Success\<rparr>"
    using r [of "[]"] by (simp add: change_events_def)
  have 1: "formData (dispatch ?s Submit) = formData ?s"
    using assms by (simp add: dispatch_def handleSubmit_start_def)
  have 2: "formState ?r = Success"
    by (simp only: run_append r) simp
  have 3: "formData ?r = formData (handleChanges ws ?s)"
    by (simp only: run_append r) simp
  have 4: "formData (run initial (es @ [Submit, TimerFires])) = formData ?s"
    by (simp only: run_append r0) simp
  have 5: "?q = handleChanges (edits es') ?r" if q: "Reset \<notin> set es'"
  proof -
    have "consistent ?r" by (rule consistent_reachable)
    with 2 have "timers ?r = 0" by (simp add: consistent_def)
    with 2 q have "run ?r es' = handleChanges (edits es') ?r"
      by (intro settled_only_edits)
    moreover have "?q = run ?r es'"
      using run_append [of initial "es @ Submit # change_events ws @ [TimerFires]" es']
      by simp
    ultimately show ?thesis by simp
  qed
  have 6: "formState ?q = Success" if q: "Reset \<notin> set es'"
    by (simp only: 5 [OF q] handleChanges_frame 2)
  have 7: "?q = ?r" if q: "Reset \<notin> set es'" and n: "edits es' = []"
    using 5 [OF q] n by simp
  from 1 2 3 4 5 6 7 show ?thesis by blast
qed

lemma EMPTY_FORM_name: "EMPTY_FORM ''name'' = Some ''''"
  by (simp add: EMPTY_FORM_def)

theorem submit_keeps_fields_witness:
  "available (run initial []) Submit
   \<and> formState (run initial [Submit, Change ''email'' ''ana@x.com'', TimerFires]) = Success
   \<and> formData (run initial [Submit, Change ''email'' ''ana@x.com'', TimerFires])
       = formData (handleChanges [(''email'', ''ana@x.com'')] initial)
   \<and> formData (run initial [Submit, TimerFires]) = formData initial
   \<and> Reset \<notin> set [Submit, Change ''name'' ''Zed'', TimerFires]
   \<and> run initial [Submit, Change ''email'' ''ana@x.com'', TimerFires,
                    Submit, Change ''name'' ''Zed'', TimerFires]
       = handleChanges [(''name'', ''Zed'')]
           (run initial [Submit, Change ''email'' ''ana@x.com'', TimerFires])
   \<and> Reset \<notin> set [Submit, TimerFires] \<and> edits [Submit, TimerFires] = []
   \<and> run initial [Submit, Change ''email'' ''ana@x.com'', TimerFires, Submit, TimerFires]
       = run initial [Submit, Change ''email'' ''ana@x.com'', TimerFires]"
proof -
  have a: "available (run initial []) Submit"
    by (simp add: initial_def)
  have q1: "Reset \<notin> set [Submit, Change ''name'' ''Zed'', TimerFires]"
    by simp
  have q2: "Reset \<notin> set [Submit, TimerFires] \<and> edits [Submit, TimerFires] = []"
    by simp
  have e1: "edits [Submit, Change ''name'' ''Zed'', TimerFires] = [(''name'', ''Zed'')]"
    by simp
  have w: "change_events [(''email'', ''ana@x.com'')] = [Change ''email'' ''ana@x.com'']"
    by (simp add: change_events_def)
  note t1 = submit_keeps_fields
    [OF a, of "[(''email'', ''ana@x.com'')]" "[Submit, Change ''name'' ''Zed'', TimerFires]",
     unfolded w e1, simplified append.simps]
  note t2 = submit_keeps_fields
    [OF a, of "[(''email'', ''ana@x.com'')]" "[Submit, TimerFires]",
     unfolded w, simplified append.simps]
  have 2: "formState (run initial [Submit, Change ''email'' ''ana@x.com'', TimerFires]) = Success"
    using t1 by (elim conjE)
  have 3: "formData (run initial [Submit, Change ''email'' ''ana@x.com'', TimerFires])
           = formData (handleChanges [(''email'', ''ana@x.com'')] initial)"
    using t1 by (elim conjE) simp
  have 4: "formData (run initial [Submit, TimerFires]) = formData initial"
    using t1 by (elim conjE) simp
  have 5: "run initial [Submit, Change ''email'' ''ana@x.com'', TimerFires,
                        Submit, Change ''name'' ''Zed'', TimerFires]
           = handleChanges [(''name'', ''Zed'')]
               (run initial [Submit, Change ''email'' ''ana@x.com'', TimerFires])"
    using t1 q1 by (elim conjE) simp
  have 6: "run initial [Submit, Change ''email'' ''ana@x.com'', TimerFires, Submit, TimerFires]
           = run initial [Submit, Change ''email'' ''ana@x.com'', TimerFires]"
    using t2 q2 by (elim conjE) simp
  show ?thesis
    by (intro conjI a 2 3 4 q1 5 q2 [THEN conjunct1] q2 [THEN conjunct2] 6)
qed

text \<open>
  C4 as stated, without the edits, fails twice. The user submits, types a name during
  the delay, and when the submission resolves the fields are not the ones held at the
  submit. And the user who had typed a name before the submit and types another into
  the fading form after the submission has resolved changes the fields in state
  \<open>success\<close>, with no reset.
\<close>

theorem submit_keeps_fields_counterexample:
  "formState (run initial [Submit, Change ''name'' ''Ana'', TimerFires]) = Success
   \<and> formData (run initial [Submit, Change ''name'' ''Ana'', TimerFires]) ''name'' = Some ''Ana''
   \<and> formData (run initial []) ''name'' = Some ''''
   \<and> formData (run initial [Submit, Change ''name'' ''Ana'', TimerFires])
       \<noteq> formData (run initial [])
   \<and> formState (run initial [Change ''name'' ''Ana'', Submit, TimerFires]) = Success
   \<and> formData (run initial [Change ''name'' ''Ana'', Submit, TimerFires]) ''name''
       = Some ''Ana''
   \<and> formState (run initial [Change ''name'' ''Ana'', Submit, TimerFires,
                                Change ''name'' ''Zed'']) = Success
   \<and> formData (run initial [Change ''name'' ''Ana'', Submit, TimerFires,
                               Change ''name'' ''Zed'']) ''name'' = Some ''Zed''"
proof -
  note defs = dispatch_def initial_def handleSubmit_start_def handleChange_def
    handleSubmit_resume_def timer_callback_def
  have s: "formState (run initial [Submit, Change ''name'' ''Ana'', TimerFires]) = Success"
    by (simp add: defs)
  have n: "formData (run initial [Submit, Change ''name'' ''Ana'', TimerFires]) ''name''
           = Some ''Ana''"
    by (simp add: defs)
  have e: "formData (run initial []) ''name'' = Some ''''"
    by (simp add: initial_def EMPTY_FORM_name)
  have d: "formData (run initial [Submit, Change ''name'' ''Ana'', TimerFires])
           \<noteq> formData (run initial [])"
  proof
    assume "formData (run initial [Submit, Change ''name'' ''Ana'', TimerFires])
            = formData (run initial [])"
    then have "formData (run initial [Submit, Change ''name'' ''Ana'', TimerFires]) ''name''
               = formData (run initial []) ''name''"
      by (rule arg_cong)
    with n e show False by simp
  qed
  have s2: "formState (run initial [Change ''name'' ''Ana'', Submit, TimerFires]) = Success"
    by (simp add: defs)
  have n2: "formData (run initial [Change ''name'' ''Ana'', Submit, TimerFires]) ''name''
            = Some ''Ana''"
    by (simp add: defs)
  have s3: "formState (run initial [Change ''name'' ''Ana'', Submit, TimerFires,
                                    Change ''name'' ''Zed'']) = Success"
    by (simp add: defs)
  have n3: "formData (run initial [Change ''name'' ''Ana'', Submit, TimerFires,
                                   Change ''name'' ''Zed'']) ''name'' = Some ''Zed''"
    by (simp add: defs)
  show ?thesis
    by (intro conjI s n e d s2 n2 s3 n3)
qed

subsection \<open>Writing fields\<close>

text \<open>
  C6. After any sequence of \<open>updateField\<close> calls each field holds the last value
  written to it, and a field never written holds what it held before, the empty string
  when the sequence starts from the initial form. A call stores the value it is given,
  whatever the value, a second write to a field replaces the first, and a write to one
  field leaves every other field as it was.
\<close>

theorem handleChanges_last_write:
  "formData (handleChanges ws s) k
     = (case spec_last_written k ws of Some v \<Rightarrow> Some v | None \<Rightarrow> formData s k)
   \<and> (spec_last_written k ws = None \<longrightarrow>
        formData (handleChanges ws initial) k = EMPTY_FORM k)
   \<and> formData (handleChange name val s) name = Some val
   \<and> handleChange name val (handleChange name val' s) = handleChange name val s
   \<and> (k \<noteq> name \<longrightarrow> formData (handleChange name val s) k = formData s k)"
  by (simp add: handleChanges_formData) (simp add: handleChange_def initial_def)

theorem handleChanges_last_write_witness:
  "formData (handleChanges [(''name'', ''An''), (''message'', ''Oi''), (''name'', ''Ana'')] initial)
     ''name'' = Some ''Ana''
   \<and> spec_last_written ''email'' [(''name'', ''An''), (''message'', ''Oi''), (''name'', ''Ana'')]
       = None
   \<and> formData (handleChanges [(''name'', ''An''), (''message'', ''Oi''), (''name'', ''Ana'')] initial)
       ''email'' = Some ''''
   \<and> ''email'' \<noteq> ''name''
   \<and> formData (handleChange ''name'' ''Ana'' initial) ''email'' = formData initial ''email''"
proof -
  let ?ws = "[(''name'', ''An''), (''message'', ''Oi''), (''name'', ''Ana'')]"
  have n: "spec_last_written ''name'' ?ws = Some ''Ana''" by simp
  have e: "spec_last_written ''email'' ?ws = None" by simp
  have d: "''email'' \<noteq> ''name''" by simp
  have m: "formData initial ''email'' = Some ''''"
    by (simp add: initial_def EMPTY_FORM_def)
  from n e d m
    handleChanges_last_write [of ?ws initial "''name''" "''name''" "''Ana''" "''An''"]
    handleChanges_last_write [of ?ws initial "''email''" "''name''" "''Ana''" "''An''"]
  show ?thesis by simp
qed

text \<open>
  C8. \<open>handleChange\<close> writes under the name the event carries, whatever that name is:
  the result has a property of that name with the event's value, its properties are
  those it had and that one, and a name the form did not have makes the record strictly
  larger. The five declared fields do not close the record.
\<close>

theorem handleChange_any_name:
  "formData (handleChange name val s) name = Some val
   \<and> dom (formData (handleChange name val s)) = insert name (dom (formData s))
   \<and> (name \<notin> dom (formData s) \<longrightarrow>
        dom (formData s) \<subset> dom (formData (handleChange name val s)))
   \<and> (formState s \<noteq> Success \<longrightarrow> dispatch s (Change name val) = handleChange name val s)"
proof -
  have v: "formData (handleChange name val s) name = Some val"
    by (simp add: handleChange_def)
  have d: "dom (formData (handleChange name val s)) = insert name (dom (formData s))"
    by (simp add: handleChange_def)
  have p: "dom (formData s) \<subset> dom (formData (handleChange name val s))"
    if "name \<notin> dom (formData s)"
    unfolding d using that by blast
  have u: "dispatch s (Change name val) = handleChange name val s"
    if "formState s \<noteq> Success"
    using that by (simp add: dispatch_def)
  show ?thesis
    by (intro conjI impI v d p u)
qed

theorem handleChange_any_name_witness:
  "''company'' \<notin> dom (formData initial)
   \<and> formState initial \<noteq> Success
   \<and> formData (dispatch initial (Change ''company'' ''ACME'')) ''company'' = Some ''ACME''
   \<and> dom (formData (handleChange ''company'' ''ACME'' initial))
       = {''company'', ''name'', ''email'', ''phone'', ''service'', ''message''}
   \<and> dom (formData initial) \<subset> dom (formData (handleChange ''company'' ''ACME'' initial))"
proof -
  have d: "dom (formData initial) = {''name'', ''email'', ''phone'', ''service'', ''message''}"
    by (simp add: initial_def EMPTY_FORM_dom)
  have a: "''company'' \<notin> dom (formData initial)"
    by (simp add: d)
  have b: "formState initial \<noteq> Success"
    by (simp add: initial_def)
  note t = handleChange_any_name [of "''company''" "''ACME''" initial]
  have t1: "formData (handleChange ''company'' ''ACME'' initial) ''company'' = Some ''ACME''"
    by (rule t [THEN conjunct1])
  have t2: "dom (formData (handleChange ''company'' ''ACME'' initial))
            = insert ''company'' (dom (formData initial))"
    by (rule t [THEN conjunct2, THEN conjunct1])
  have sub: "dom (formData initial) \<subset> dom (formData (handleChange ''company'' ''ACME'' initial))"
    by (rule t [THEN conjunct2, THEN conjunct2, THEN conjunct1, THEN mp, OF a])
  have t4: "dispatch initial (Change ''company'' ''ACME'') = handleChange ''company'' ''ACME'' initial"
    by (rule t [THEN conjunct2, THEN conjunct2, THEN conjunct2, THEN mp, OF b])
  have v: "formData (dispatch initial (Change ''company'' ''ACME'')) ''company'' = Some ''ACME''"
    by (simp only: t4 t1)
  have eq: "dom (formData (handleChange ''company'' ''ACME'' initial))
            = {''company'', ''name'', ''email'', ''phone'', ''service'', ''message''}"
    by (simp only: t2 d)
  show ?thesis
    by (intro conjI a b v eq sub)
qed

section \<open>Properties of the marquee\<close>

lemma length_PORTFOLIO_ITEMS: "length PORTFOLIO_ITEMS = 10"
  by (simp add: PORTFOLIO_ITEMS_def)

lemma item_ids:
  "map item_id PORTFOLIO_ITEMS
   = [''p01'', ''p02'', ''p03'', ''p04'', ''p05'', ''p06'', ''p07'', ''p08'', ''p09'', ''p10'']"
  by (simp add: PORTFOLIO_ITEMS_def)

text \<open>
  C7. The track holds the item list twice, in order: ten cards for the ten items and
  then ten clones for the same ten items, twenty children in all. Card number \<open>n\<close> of the
  second half shows the item of card number \<open>n\<close> of the first half under the key
  prefixed with \<open>clone-\<close>. The originals are not clones and are rendered with
  \<open>aria-hidden\<close> false; the clones are rendered with \<open>aria-hidden\<close> true and an empty
  \<open>alt\<close>. What is rendered is the item list twice as well: every card, original or
  clone, shows the image, the category, the title and the location of its item, and an
  original carries the title of its item in its \<open>alt\<close>. The keys are \<open>p01\<close> to \<open>p10\<close>
  and then \<open>clone-p01\<close> to \<open>clone-p10\<close>.
\<close>

theorem marquee_track_twice:
  "map item marquee_track = PORTFOLIO_ITEMS @ PORTFOLIO_ITEMS
   \<and> length PORTFOLIO_ITEMS = 10
   \<and> length marquee_track = 20
   \<and> map isClone marquee_track = replicate 10 False @ replicate 10 True
   \<and> map (aria_hidden \<circ> PortfolioCard) marquee_track = replicate 10 False @ replicate 10 True
   \<and> map item (drop 10 marquee_track) = map item (take 10 marquee_track)
   \<and> map key (drop 10 marquee_track) = map (\<lambda>e. ''clone-'' @ key e) (take 10 marquee_track)
   \<and> map (img_alt \<circ> PortfolioCard) (drop 10 marquee_track) = replicate 10 ''''
   \<and> map PortfolioCard marquee_track
       = map (\<lambda>i. \<lparr>aria_hidden = False,
                    img_src = item_image i,
                    img_alt = title i @ '' '' @ [CHR 0xE2, CHR 0x80, CHR 0x94] @ '' DroneLENS'',
                    badge = category i,
                    heading = title i,
                    place = location i\<rparr>) PORTFOLIO_ITEMS
         @ map (\<lambda>i. \<lparr>aria_hidden = True,
                      img_src = item_image i,
                      img_alt = '''',
                      badge = category i,
                      heading = title i,
                      place = location i\<rparr>) PORTFOLIO_ITEMS
   \<and> map (img_src \<circ> PortfolioCard) marquee_track
       = map item_image (PORTFOLIO_ITEMS @ PORTFOLIO_ITEMS)
   \<and> map (badge \<circ> PortfolioCard) marquee_track
       = map category (PORTFOLIO_ITEMS @ PORTFOLIO_ITEMS)
   \<and> map (heading \<circ> PortfolioCard) marquee_track
       = map title (PORTFOLIO_ITEMS @ PORTFOLIO_ITEMS)
   \<and> map (place \<circ> PortfolioCard) marquee_track
       = map location (PORTFOLIO_ITEMS @ PORTFOLIO_ITEMS)
   \<and> map (img_alt \<circ> PortfolioCard) (take 10 marquee_track)
       = map (\<lambda>i. title i @ '' '' @ [CHR 0xE2, CHR 0x80, CHR 0x94] @ '' DroneLENS'')
           PORTFOLIO_ITEMS
   \<and> map key marquee_track
       = [''p01'', ''p02'', ''p03'', ''p04'', ''p05'', ''p06'', ''p07'', ''p08'', ''p09'', ''p10'',
          ''clone-p01'', ''clone-p02'', ''clone-p03'', ''clone-p04'', ''clone-p05'',
          ''clone-p06'', ''clone-p07'', ''clone-p08'', ''clone-p09'', ''clone-p10'']
   \<and> heading (PortfolioCard (marquee_track ! 0)) = ''Skyline de Curitiba''
   \<and> heading (PortfolioCard (marquee_track ! 10)) = ''Skyline de Curitiba''"
proof -
  note n = length_PORTFOLIO_ITEMS
  have i: "map item marquee_track = PORTFOLIO_ITEMS @ PORTFOLIO_ITEMS"
    by (simp add: marquee_track_def comp_def)
  have l: "length marquee_track = 20"
    by (simp add: marquee_track_def n)
  have c: "map isClone marquee_track = replicate 10 False @ replicate 10 True"
    by (simp add: marquee_track_def comp_def map_replicate_const n)
  have h: "map (aria_hidden \<circ> PortfolioCard) marquee_track
           = replicate 10 False @ replicate 10 True"
    by (simp add: marquee_track_def comp_def PortfolioCard_def map_replicate_const n)
  have t: "take 10 marquee_track
           = map (\<lambda>i. \<lparr>key = item_id i, item = i, isClone = False\<rparr>) PORTFOLIO_ITEMS"
    by (simp add: marquee_track_def n)
  have d: "drop 10 marquee_track
           = map (\<lambda>i. \<lparr>key = ''clone-'' @ item_id i, item = i, isClone = True\<rparr>) PORTFOLIO_ITEMS"
    by (simp add: marquee_track_def n)
  have di: "map item (drop 10 marquee_track) = map item (take 10 marquee_track)"
    by (simp add: t d comp_def)
  have dk: "map key (drop 10 marquee_track)
            = map (\<lambda>e. ''clone-'' @ key e) (take 10 marquee_track)"
    by (simp add: t d comp_def)
  have da: "map (img_alt \<circ> PortfolioCard) (drop 10 marquee_track) = replicate 10 ''''"
    by (simp add: d comp_def PortfolioCard_def map_replicate_const n)
  have r: "map PortfolioCard marquee_track
       = map (\<lambda>i. \<lparr>aria_hidden = False,
                    img_src = item_image i,
                    img_alt = title i @ '' '' @ [CHR 0xE2, CHR 0x80, CHR 0x94] @ '' DroneLENS'',
                    badge = category i,
                    heading = title i,
                    place = location i\<rparr>) PORTFOLIO_ITEMS
         @ map (\<lambda>i. \<lparr>aria_hidden = True,
                      img_src = item_image i,
                      img_alt = '''',
                      badge = category i,
                      heading = title i,
                      place = location i\<rparr>) PORTFOLIO_ITEMS"
    by (simp add: marquee_track_def comp_def PortfolioCard_def)
  have rs: "map (img_src \<circ> PortfolioCard) marquee_track
            = map item_image (PORTFOLIO_ITEMS @ PORTFOLIO_ITEMS)"
    by (simp add: marquee_track_def comp_def PortfolioCard_def)
  have rb: "map (badge \<circ> PortfolioCard) marquee_track
            = map category (PORTFOLIO_ITEMS @ PORTFOLIO_ITEMS)"
    by (simp add: marquee_track_def comp_def PortfolioCard_def)
  have rh: "map (heading \<circ> PortfolioCard) marquee_track
            = map title (PORTFOLIO_ITEMS @ PORTFOLIO_ITEMS)"
    by (simp add: marquee_track_def comp_def PortfolioCard_def)
  have rp: "map (place \<circ> PortfolioCard) marquee_track
            = map location (PORTFOLIO_ITEMS @ PORTFOLIO_ITEMS)"
    by (simp add: marquee_track_def comp_def PortfolioCard_def)
  have ra: "map (img_alt \<circ> PortfolioCard) (take 10 marquee_track)
            = map (\<lambda>i. title i @ '' '' @ [CHR 0xE2, CHR 0x80, CHR 0x94] @ '' DroneLENS'')
                PORTFOLIO_ITEMS"
    by (simp add: t comp_def PortfolioCard_def)
  have "map key marquee_track
        = map item_id PORTFOLIO_ITEMS @ map (\<lambda>k. ''clone-'' @ k) (map item_id PORTFOLIO_ITEMS)"
    by (simp add: marquee_track_def comp_def)
  then have k: "map key marquee_track
       = [''p01'', ''p02'', ''p03'', ''p04'', ''p05'', ''p06'', ''p07'', ''p08'', ''p09'', ''p10'',
          ''clone-p01'', ''clone-p02'', ''clone-p03'', ''clone-p04'', ''clone-p05'',
          ''clone-p06'', ''clone-p07'', ''clone-p08'', ''clone-p09'', ''clone-p10'']"
    by (simp only: item_ids) simp
  have f0: "heading (PortfolioCard (marquee_track ! 0)) = ''Skyline de Curitiba''"
    by (simp add: marquee_track_def PORTFOLIO_ITEMS_def PortfolioCard_def)
  have "marquee_track ! 10 = drop 10 marquee_track ! 0"
    by (simp add: l)
  then have f10: "heading (PortfolioCard (marquee_track ! 10)) = ''Skyline de Curitiba''"
    by (simp only: d) (simp add: PORTFOLIO_ITEMS_def PortfolioCard_def)
  show ?thesis
    by (intro conjI i n l c h di dk da r rs rb rh rp ra k f0 f10)
qed

section \<open>Properties of the theme toggle\<close>




section \<open>Properties of the star rating\<close>

lemma map_threshold:
  "map (\<lambda>i. if i < k then a else b) [0..<n] = replicate (min k n) a @ replicate (n - k) b"
proof (induction n)
  case 0
  show ?case by simp
next
  case (Suc n)
  show ?case
  proof (cases "n < k")
    case True
    then have "min k (Suc n) = Suc (min k n)" "Suc n - k = 0" "n - k = 0"
      by simp_all
    with Suc True show ?thesis
      by (simp add: replicate_append_same)
  next
    case False
    then have "min k (Suc n) = min k n" "Suc n - k = Suc (n - k)"
      by simp_all
    with Suc False show ?thesis
      by (simp add: replicate_append_same)
  qed
qed

lemma index_less_Finite:
  "index_less i (Finite x) = (i < nat \<lceil>x\<rceil>)"
proof -
  have "(real i < x) = (int i < \<lceil>x\<rceil>)"
    by (simp add: less_ceiling_iff)
  also have "\<dots> = (i < nat \<lceil>x\<rceil>)"
    by linarith
  finally show ?thesis by simp
qed

lemma StarRating_Finite:
  "StarRating (Finite x) = replicate (min (nat \<lceil>x\<rceil>) 5) Filled @ replicate (5 - nat \<lceil>x\<rceil>) Unfilled"
  unfolding StarRating_def index_less_Finite by (rule map_threshold)

lemma clamp_ceiling:
  "nat \<lceil>min (max (x :: real) 0) 5\<rceil> = min (nat \<lceil>x\<rceil>) 5"
proof -
  have "\<lceil>min (max x 0) 5\<rceil> = min (max \<lceil>x\<rceil> 0) 5"
    by (simp add: min_def max_def ceiling_le_iff le_ceiling_iff)
  then show ?thesis by linarith
qed

lemma StarRating_clamped:
  "StarRating (Finite x)
   = replicate (nat \<lceil>min (max x 0) 5\<rceil>) Filled
     @ replicate (5 - nat \<lceil>min (max x 0) 5\<rceil>) Unfilled"
proof -
  have "5 - min (nat \<lceil>x\<rceil>) 5 = 5 - nat \<lceil>x\<rceil>"
    by simp
  then show ?thesis
    by (simp only: StarRating_Finite clamp_ceiling)
qed

text \<open>
  C10, as the code has it. There are always five stars. For a finite rating the first
  \<open>\<lceil>min(max(rating, 0), 5)\<rceil>\<close> are filled and the rest unfilled; for a whole-number
  rating that is \<open>min(max(rating, 0), 5)\<close> itself. A rating of 5 or more displays as 5
  does, a rating of zero or less displays no filled star, and so does NaN; nothing
  fails for any input.
\<close>

theorem StarRating_filled_prefix:
  "length (StarRating r) = 5
   \<and> StarRating (Finite x)
       = replicate (nat \<lceil>min (max x 0) 5\<rceil>) Filled
         @ replicate (5 - nat \<lceil>min (max x 0) 5\<rceil>) Unfilled
   \<and> StarRating (Finite (of_int k))
       = replicate (nat (min (max k 0) 5)) Filled
         @ replicate (5 - nat (min (max k 0) 5)) Unfilled
   \<and> StarRating (Finite (max x 5)) = StarRating (Finite 5)
   \<and> StarRating (Finite (min x 0)) = replicate 5 Unfilled
   \<and> StarRating PosInfinity = replicate 5 Filled
   \<and> StarRating NegInfinity = replicate 5 Unfilled
   \<and> StarRating NaN = replicate 5 Unfilled"
proof -
  have len: "length (StarRating r) = 5"
    by (simp add: StarRating_def)
  have whole: "StarRating (Finite (of_int k))
               = replicate (nat (min (max k 0) 5)) Filled
                 @ replicate (5 - nat (min (max k 0) 5)) Unfilled"
  proof -
    have "\<lceil>min (max (of_int k :: real) 0) 5\<rceil> = min (max k 0) 5"
      by (simp add: min_def max_def)
    then show ?thesis
      by (simp only: StarRating_clamped)
  qed
  have high: "StarRating (Finite (max x 5)) = StarRating (Finite 5)"
  proof -
    have "min (nat \<lceil>max x 5\<rceil>) 5 = min (nat \<lceil>5 :: real\<rceil>) 5"
      by (simp add: max_def) linarith
    then show ?thesis
      by (simp only: StarRating_clamped clamp_ceiling)
  qed
  have low: "StarRating (Finite (min x 0)) = replicate 5 Unfilled"
  proof -
    have "nat \<lceil>min x 0\<rceil> = 0"
      by (simp add: min_def ceiling_le_iff)
    then show ?thesis
      by (simp add: StarRating_Finite)
  qed
  have pos: "StarRating PosInfinity = replicate 5 Filled"
    by (simp add: StarRating_def map_replicate_const)
  have neg: "StarRating NegInfinity = replicate 5 Unfilled"
    by (simp add: StarRating_def map_replicate_const)
  have nan: "StarRating NaN = replicate 5 Unfilled"
    by (simp add: StarRating_def map_replicate_const)
  show ?thesis
    by (intro conjI len StarRating_clamped whole high low pos neg nan)
qed

text \<open>
  C10 as stated, without the rounding, fails at a rating that is not a whole number:
  for 2.5 three stars are filled, and three is not \<open>min(max(2.5, 0), 5)\<close>.
\<close>

theorem StarRating_fraction_counterexample:
  "StarRating (Finite (5 / 2)) = [Filled, Filled, Filled, Unfilled, Unfilled]
   \<and> filled_count (StarRating (Finite (5 / 2))) = 3
   \<and> real (filled_count (StarRating (Finite (5 / 2)))) \<noteq> min (max (5 / 2) 0) 5"
proof -
  have u: "[0..<5] = [0, 1, 2, 3, 4]"
    by (simp add: upt_rec)
  have s: "StarRating (Finite (5 / 2)) = [Filled, Filled, Filled, Unfilled, Unfilled]"
    by (simp add: StarRating_def u)
  have c: "filled_count (StarRating (Finite (5 / 2))) = 3"
    by (simp add: s filled_count_def)
  have "real (filled_count (StarRating (Finite (5 / 2)))) \<noteq> min (max (5 / 2) 0) 5"
    by (simp add: c)
  with s c show ?thesis by simp
qed

end
